theory Spec2Isabelle
  imports Complex_Main "HOL-Library.Word"
begin

section \<open>Values that cross the boundary of the views\<close>

text \<open>
  The two views of \<^verbatim>\<open>authweb3/views.py\<close> that carry the login protocol are
  \<^verbatim>\<open>get_nonce\<close> (issue a challenge) and \<^verbatim>\<open>verify_signature\<close> (verify the response).
  Both read a JSON request body and answer with a \<^verbatim>\<open>JsonResponse\<close>.

  A decoded JSON document is a value of \<open>json\<close>. An object is the Python dict that
  \<^verbatim>\<open>json.loads\<close> built, kept as a list of pairs that is read with \<open>map_of\<close>.
  A Python float is kept as a real number: the views only ever ask whether a value is
  truthy, and a float is falsy exactly when it is zero.
\<close>

datatype json =
    JNull
  | JBool bool
  | JInt int
  | JFloat real
  | JStr string
  | JArr "json list"
  | JObj "(string \<times> json) list"

text \<open>The exceptions that can leave a view uncaught.\<close>

datatype exn = ValueError | AttributeError

text \<open>
  The bytes of \<^verbatim>\<open>request.body\<close> are represented by what \<^verbatim>\<open>json.loads\<close> makes of
  them: no bytes at all, bytes that \<^verbatim>\<open>json.loads\<close> rejects (\<^verbatim>\<open>JSONDecodeError\<close> and
  \<^verbatim>\<open>UnicodeDecodeError\<close> are both subclasses of \<^verbatim>\<open>ValueError\<close>), or bytes that
  decode to a JSON value.
\<close>

datatype payload = NoBody | Malformed | Decoded json

record request =
  http_method :: string
  body :: payload

record response =
  content :: "(string \<times> json) list"
  status :: nat

definition JsonResponse :: "(string \<times> json) list \<Rightarrow> nat \<Rightarrow> response" where
  "JsonResponse d s = \<lparr>content = d, status = s\<rparr>"

subsection \<open>The Python operations the views apply to the decoded body\<close>

text \<open>\<^verbatim>\<open>json.loads(request.body or "{}")\<close>\<close>

fun json_loads :: "payload \<Rightarrow> exn + json" where
  "json_loads NoBody = Inr (JObj [])"
| "json_loads Malformed = Inl ValueError"
| "json_loads (Decoded j) = Inr j"

text \<open>Python's truth value of a decoded JSON value.\<close>

fun truthy :: "json \<Rightarrow> bool" where
  "truthy JNull = False"
| "truthy (JBool b) = b"
| "truthy (JInt i) = (i \<noteq> 0)"
| "truthy (JFloat x) = (x \<noteq> 0)"
| "truthy (JStr s) = (s \<noteq> [])"
| "truthy (JArr xs) = (xs \<noteq> [])"
| "truthy (JObj kvs) = (kvs \<noteq> [])"

text \<open>\<^verbatim>\<open>a or b\<close>\<close>

definition py_or :: "json \<Rightarrow> json \<Rightarrow> json" where
  "py_or a b = (if truthy a then a else b)"

text \<open>
  \<^verbatim>\<open>data.get(k)\<close>: the value under \<open>k\<close>, \<^verbatim>\<open>None\<close> when the key is absent; only a
  dict has the method.
\<close>

fun dict_get :: "json \<Rightarrow> string \<Rightarrow> exn + json" where
  "dict_get (JObj kvs) k = Inr (case map_of kvs k of None \<Rightarrow> JNull | Some v \<Rightarrow> v)"
| "dict_get _ k = Inl AttributeError"

text \<open>
  \<^verbatim>\<open>str.lower\<close>, on the ASCII letters (an address is a hexadecimal string); every other
  character is left as it is.
\<close>

definition lower_char :: "char \<Rightarrow> char" where
  "lower_char c =
     (if 65 \<le> (of_char c :: nat) \<and> (of_char c :: nat) \<le> 90
      then char_of ((of_char c :: nat) + 32) else c)"

definition lower :: "string \<Rightarrow> string" where
  "lower s = map lower_char s"

text \<open>\<^verbatim>\<open>v.lower()\<close> on a decoded value: only a string has the method.\<close>

fun lower_method :: "json \<Rightarrow> exn + string" where
  "lower_method (JStr s) = Inr (lower s)"
| "lower_method _ = Inl AttributeError"

section \<open>The world the views act on\<close>

text \<open>
  Modelled from the spec: the profile model and the signal handler that attaches a
  profile to every new user (\<^verbatim>\<open>authweb3.models\<close>, \<^verbatim>\<open>authweb3.signals\<close>) are not
  among the sources. The spec gives the persisted shape: one record per identity, keyed
  by the unique \<^verbatim>\<open>address\<close> (the \<^verbatim>\<open>username\<close> of the Django user), with a nullable
  string \<^verbatim>\<open>nonce\<close> that is absent before the first challenge. \<open>users w a = None\<close>
  means that no user \<open>a\<close> exists, \<open>Some None\<close> that its profile has no nonce yet.

  \<open>session\<close> is the user that \<^verbatim>\<open>login(request, user)\<close> bound to the client's session.
  \<open>urandom\<close> is the sequence of bytes that the operating system's generator hands
  out, and \<open>drawn\<close> counts the bytes already taken from it.
\<close>

record world =
  users :: "string \<rightharpoonup> string option"
  session :: "string option"
  urandom :: "nat \<Rightarrow> 8 word"
  drawn :: nat

text \<open>\<^verbatim>\<open>User.objects.get_or_create(username=address)\<close>\<close>

definition get_or_create :: "world \<Rightarrow> string \<Rightarrow> world" where
  "get_or_create w a =
     (case users w a of
        Some p \<Rightarrow> w
      | None \<Rightarrow> w\<lparr>users := (users w)(a \<mapsto> None)\<rparr>)"

text \<open>\<^verbatim>\<open>profile.nonce = n; profile.save()\<close> for the profile of user \<open>a\<close>\<close>

definition save_nonce :: "world \<Rightarrow> string \<Rightarrow> string \<Rightarrow> world" where
  "save_nonce w a n = w\<lparr>users := (users w)(a \<mapsto> Some n)\<rparr>"

text \<open>\<^verbatim>\<open>login(request, user)\<close>\<close>

definition login :: "world \<Rightarrow> string \<Rightarrow> world" where
  "login w a = w\<lparr>session := Some a\<rparr>"

subsection \<open>\<^verbatim>\<open>secrets.token_hex\<close>\<close>

text \<open>
  \<^verbatim>\<open>secrets.token_hex(n)\<close> is \<^verbatim>\<open>binascii.hexlify(token_bytes(n)).decode('ascii')\<close>:
  \<open>n\<close> fresh bytes, each written as two lowercase hexadecimal digits, the high
  nibble first.
\<close>

definition hexdigits :: string where
  "hexdigits = ''0123456789abcdef''"

definition hex_byte :: "8 word \<Rightarrow> string" where
  "hex_byte b = [hexdigits ! (unat b div 16), hexdigits ! (unat b mod 16)]"

definition hexlify :: "8 word list \<Rightarrow> string" where
  "hexlify bs = concat (map hex_byte bs)"

definition token_bytes :: "nat \<Rightarrow> world \<Rightarrow> 8 word list \<times> world" where
  "token_bytes n w = (map (urandom w) [drawn w ..< drawn w + n], w\<lparr>drawn := drawn w + n\<rparr>)"

definition token_hex :: "nat \<Rightarrow> world \<Rightarrow> string \<times> world" where
  "token_hex n w = (hexlify (fst (token_bytes n w)), snd (token_bytes n w))"

subsection \<open>The signature library\<close>

text \<open>
  \<^verbatim>\<open>encode_defunct(text=t)\<close> wraps the text as a personal message to be signed.
  \<^verbatim>\<open>w3.eth.account.recover_message(signable, signature=sig)\<close> belongs to the
  signature library; the views take it as the parameter \<open>recover\<close>, which answers
  \<open>Inr\<close> the signer's address or \<open>Inl\<close> the text of the exception it raised.
\<close>

datatype signable = SignableMessage string

definition encode_defunct :: "string \<Rightarrow> signable" where
  "encode_defunct t = SignableMessage t"

type_synonym recover_message = "signable \<Rightarrow> json \<Rightarrow> string + string"

text \<open>The f-string \<^verbatim>\<open>f"Login nonce: {profile.nonce}"\<close>; a null nonce prints as \<^verbatim>\<open>None\<close>.\<close>

definition message_text :: "string option \<Rightarrow> string" where
  "message_text n = ''Login nonce: '' @ (case n of None \<Rightarrow> ''None'' | Some s \<Rightarrow> s)"

section \<open>The views\<close>

text \<open>
  A view returns the response, or the exception that left it uncaught, together with
  the world it leaves behind.
\<close>

definition get_nonce :: "world \<Rightarrow> request \<Rightarrow> (exn + response) \<times> world" where
  "get_nonce w r =
     (if http_method r \<noteq> ''POST''
      then (Inr (JsonResponse [(''error'', JStr ''POST required'')] 405), w)
      else case json_loads (body r) of
        Inl e \<Rightarrow> (Inl e, w)
      | Inr data \<Rightarrow>
          (case dict_get data ''address'' of
             Inl e \<Rightarrow> (Inl e, w)
           | Inr v \<Rightarrow>
               (case lower_method (py_or v (JStr [])) of
                  Inl e \<Rightarrow> (Inl e, w)
                | Inr address \<Rightarrow>
                    if address = []
                    then (Inr (JsonResponse [(''error'', JStr ''Missing address'')] 400), w)
                    else
                      let w1 = get_or_create w address;
                          nonce = fst (token_hex 16 w1);
                          w2 = save_nonce (snd (token_hex 16 w1)) address nonce
                      in (Inr (JsonResponse [(''nonce'', JStr nonce)] 200), w2))))"

definition verify_signature ::
  "recover_message \<Rightarrow> world \<Rightarrow> request \<Rightarrow> (exn + response) \<times> world" where
  "verify_signature recover w r =
     (if http_method r \<noteq> ''POST''
      then (Inr (JsonResponse [(''error'', JStr ''POST required'')] 405), w)
      else case json_loads (body r) of
        Inl e \<Rightarrow> (Inl e, w)
      | Inr data \<Rightarrow>
          (case dict_get data ''address'' of
             Inl e \<Rightarrow> (Inl e, w)
           | Inr v \<Rightarrow>
               (case lower_method (py_or v (JStr [])) of
                  Inl e \<Rightarrow> (Inl e, w)
                | Inr address \<Rightarrow>
                    (case dict_get data ''signature'' of
                       Inl e \<Rightarrow> (Inl e, w)
                     | Inr signature \<Rightarrow>
                         if address = [] \<or> \<not> truthy signature
                         then (Inr (JsonResponse [(''success'', JBool False),
                                 (''error'', JStr ''Missing address/signature'')] 400), w)
                         else
                           (case users w address of
                              None \<Rightarrow>
                                (Inr (JsonResponse [(''success'', JBool False),
                                   (''error'', JStr ''User not found'')] 404), w)
                            | Some profile_nonce \<Rightarrow>
                                (case recover (encode_defunct (message_text profile_nonce))
                                        signature of
                                   Inl e \<Rightarrow>
                                     (Inr (JsonResponse [(''success'', JBool False),
                                        (''error'', JStr (''Recover failed: '' @ e))] 400), w)
                                 | Inr recovered \<Rightarrow>
                                     if lower recovered = address
                                     then
                                       let nonce = fst (token_hex 16 w);
                                           w1 = save_nonce (snd (token_hex 16 w)) address nonce;
                                           w2 = login w1 address
                                       in (Inr (JsonResponse [(''success'', JBool True),
                                             (''address'', JStr address)] 200), w2)
                                     else
                                       (Inr (JsonResponse [(''success'', JBool False),
                                          (''error'', JStr ''Invalid signature'')] 401), w)))))))"

section \<open>Outcomes and sample inputs\<close>

text \<open>A view succeeded when it answered with status 200.\<close>

definition succeeded :: "exn + response \<Rightarrow> bool" where
  "succeeded out = (case out of Inl e \<Rightarrow> False | Inr resp \<Rightarrow> status resp = 200)"

text \<open>
  Concrete inputs for the examples: a POST request whose body decodes to the object
  \<open>kvs\<close>; the world before any request, with the generator \<open>f\<close>; a signature
  library that knows one signature \<open>sig\<close>, made by the wallet \<open>a\<close> over the text
  \<open>t\<close>, and fails to recover anything else; a generator that hands out the same byte
  again and again, and one that counts.
\<close>

definition post :: "(string \<times> json) list \<Rightarrow> request" where
  "post kvs = \<lparr>http_method = ''POST'', body = Decoded (JObj kvs)\<rparr>"

definition fresh_world :: "(nat \<Rightarrow> 8 word) \<Rightarrow> world" where
  "fresh_world f = \<lparr>users = Map.empty, session = None, urandom = f, drawn = 0\<rparr>"

definition only_signature :: "string \<Rightarrow> json \<Rightarrow> string \<Rightarrow> recover_message" where
  "only_signature t sig a m s =
     (if m = encode_defunct t \<and> s = sig then Inr a else Inl ''invalid signature'')"

definition zeros :: "nat \<Rightarrow> 8 word" where
  "zeros i = 0"

definition counting :: "nat \<Rightarrow> 8 word" where
  "counting i = of_nat i"

section \<open>Facts about the building blocks\<close>

lemma lower_char_idem: "lower_char (lower_char c) = lower_char c"
  by (simp add: lower_char_def)

lemma lower_idem: "lower (lower s) = lower s"
  by (simp add: lower_def lower_char_idem)

lemma lower_Nil_iff: "lower s = [] \<longleftrightarrow> s = []"
  by (simp add: lower_def)

lemma length_hexlify: "length (hexlify bs) = 2 * length bs"
  by (induction bs) (simp_all add: hexlify_def hex_byte_def)

lemma unat_byte_div: "unat (b :: 8 word) div 16 < 16"
proof -
  have "unat b < 2 ^ 8" using unsigned_less [of b, where 'a = nat] by simp
  then show ?thesis by simp
qed

lemma length_hexdigits: "length hexdigits = 16"
  by (simp add: hexdigits_def)

lemma nth_hexdigits: "i < 16 \<Longrightarrow> hexdigits ! i \<in> set hexdigits"
  by (rule nth_mem) (simp add: length_hexdigits)

lemma set_hex_byte: "set (hex_byte b) \<subseteq> set hexdigits"
  using nth_hexdigits [OF unat_byte_div [of b]] nth_hexdigits [of "unat b mod 16"]
  by (simp add: hex_byte_def)

lemma set_hexlify: "set (hexlify bs) \<subseteq> set hexdigits"
  using set_hex_byte by (auto simp: hexlify_def)

lemma distinct_hexdigits: "distinct hexdigits"
  by (simp add: hexdigits_def)

lemma hexdigits_inject:
  assumes "i < 16" "j < 16" "hexdigits ! i = hexdigits ! j"
  shows "i = j"
proof -
  have "length hexdigits = 16" by (simp add: hexdigits_def)
  with assms distinct_hexdigits show ?thesis
    by (simp add: nth_eq_iff_index_eq)
qed

lemma hex_byte_inject:
  assumes "hex_byte a = hex_byte b" shows "a = b"
proof -
  from assms have d: "unat a div 16 = unat b div 16"
    using hexdigits_inject [OF unat_byte_div [of a] unat_byte_div [of b]]
    by (simp add: hex_byte_def)
  from assms have m: "unat a mod 16 = unat b mod 16"
    using hexdigits_inject [of "unat a mod 16" "unat b mod 16"]
    by (simp add: hex_byte_def)
  have "unat a = unat b"
    using d m by (metis div_mult_mod_eq)
  then show ?thesis by (simp add: word_unat_eq_iff)
qed

lemma hexlify_Cons: "hexlify (b # bs) = hex_byte b @ hexlify bs"
  by (simp add: hexlify_def)

lemma hexlify_inject: "hexlify as = hexlify bs \<Longrightarrow> as = bs"
proof (induction as arbitrary: bs)
  case Nil
  then have "length (hexlify bs) = length (hexlify [])" by simp
  then show ?case by (simp add: length_hexlify)
next
  case (Cons a as)
  show ?case
  proof (cases bs)
    case Nil
    with Cons.prems have "length (hexlify (a # as)) = length (hexlify [])" by simp
    then show ?thesis by (simp add: length_hexlify)
  next
    case (Cons b bs')
    with Cons.prems have "hex_byte a @ hexlify as = hex_byte b @ hexlify bs'"
      by (simp add: hexlify_Cons)
    moreover have "length (hex_byte a) = length (hex_byte b)" by (simp add: hex_byte_def)
    ultimately have "hex_byte a = hex_byte b" "hexlify as = hexlify bs'" by simp_all
    with Cons.IH Cons show ?thesis by (simp add: hex_byte_inject)
  qed
qed

lemma fst_token_hex: "fst (token_hex n w) = hexlify (map (urandom w) [drawn w ..< drawn w + n])"
  by (simp add: token_hex_def token_bytes_def)

lemma snd_token_hex: "snd (token_hex n w) = w\<lparr>drawn := drawn w + n\<rparr>"
  by (simp add: token_hex_def token_bytes_def)

lemma length_token_hex: "length (fst (token_hex n w)) = 2 * n"
  by (simp add: fst_token_hex length_hexlify)

lemma set_token_hex: "set (fst (token_hex n w)) \<subseteq> set hexdigits"
  by (simp add: fst_token_hex set_hexlify)

lemma get_nonce_issue:
  assumes "http_method r = ''POST''" "json_loads (body r) = Inr (JObj kvs)"
    "map_of kvs ''address'' = Some (JStr A)" "A \<noteq> []"
  shows "get_nonce w r =
    (Inr (JsonResponse [(''nonce'', JStr (fst (token_hex 16 w)))] 200),
     w\<lparr>users := (users w)(lower A \<mapsto> Some (fst (token_hex 16 w))), drawn := drawn w + 16\<rparr>)"
  using assms
  by (simp add: get_nonce_def py_or_def lower_Nil_iff Let_def fst_token_hex
      snd_token_hex save_nonce_def get_or_create_def split: option.split)


lemma dict_get_Inr_iff:
  "dict_get d k = Inr v \<longleftrightarrow>
     (\<exists>kvs. d = JObj kvs \<and> v = (case map_of kvs k of None \<Rightarrow> JNull | Some x \<Rightarrow> x))"
  by (cases d) auto

lemma lower_method_Inr_iff: "lower_method v = Inr s \<longleftrightarrow> (\<exists>t. v = JStr t \<and> s = lower t)"
  by (cases v) auto

lemma lower_method_py_or:
  "lower_method (py_or v (JStr [])) =
     (if truthy v then lower_method v else Inr [])"
  by (simp add: py_or_def lower_def)

lemma verify_signature_reach:
  assumes "http_method r = ''POST''" "json_loads (body r) = Inr (JObj kvs)"
    "map_of kvs ''address'' = Some (JStr A)" "A \<noteq> []"
    "map_of kvs ''signature'' = Some sig" "truthy sig"
    "users w (lower A) = Some n"
  shows "verify_signature recover w r =
    (case recover (encode_defunct (message_text n)) sig of
       Inl e \<Rightarrow> (Inr (JsonResponse [(''success'', JBool False),
                  (''error'', JStr (''Recover failed: '' @ e))] 400), w)
     | Inr recovered \<Rightarrow>
         if lower recovered = lower A
         then (Inr (JsonResponse [(''success'', JBool True), (''address'', JStr (lower A))] 200),
               w\<lparr>users := (users w)(lower A \<mapsto> Some (fst (token_hex 16 w))),
                 session := Some (lower A), drawn := drawn w + 16\<rparr>)
         else (Inr (JsonResponse [(''success'', JBool False),
                  (''error'', JStr ''Invalid signature'')] 401), w))"
  using assms
  by (simp add: verify_signature_def py_or_def lower_Nil_iff Let_def
      snd_token_hex save_nonce_def login_def split: sum.split)

text \<open>
  Every run of a view ends in one of three ways: an uncaught exception, a response other
  than 200 (both leave the world as it was), or the one path that answers 200.
\<close>

lemma get_nonce_cases:
  "(\<exists>e. get_nonce w r = (Inl e, w)) \<or>
   (\<exists>resp. get_nonce w r = (Inr resp, w) \<and> status resp \<noteq> 200) \<or>
   (\<exists>kvs A. http_method r = ''POST'' \<and> json_loads (body r) = Inr (JObj kvs) \<and>
      map_of kvs ''address'' = Some (JStr A) \<and> A \<noteq> [])"
proof (cases "http_method r = ''POST''")
  case False
  then show ?thesis by (simp add: get_nonce_def JsonResponse_def)
next
  case post: True
  show ?thesis
  proof (cases "json_loads (body r)")
    case (Inl e)
    with post show ?thesis by (simp add: get_nonce_def)
  next
    case (Inr data)
    show ?thesis
    proof (cases "dict_get data ''address''")
      case (Inl e)
      with post Inr show ?thesis by (simp add: get_nonce_def)
    next
      case getr: (Inr v)
      then obtain kvs where data: "data = JObj kvs"
        and v: "v = (case map_of kvs ''address'' of None \<Rightarrow> JNull | Some x \<Rightarrow> x)"
        by (auto simp: dict_get_Inr_iff)
      show ?thesis
      proof (cases "truthy v")
        case False
        with post Inr getr show ?thesis
          by (simp add: get_nonce_def lower_method_py_or JsonResponse_def)
      next
        case True
        show ?thesis
        proof (cases "lower_method v")
          case (Inl e)
          with post Inr getr True show ?thesis
            by (simp add: get_nonce_def lower_method_py_or)
        next
          case lowr: (Inr a)
          then obtain A where "v = JStr A" by (auto simp: lower_method_Inr_iff)
          with True v have "map_of kvs ''address'' = Some (JStr A)" "A \<noteq> []"
            by (auto split: option.splits)
          with post Inr data show ?thesis by simp
        qed
      qed
    qed
  qed
qed

lemma verify_signature_cases:
  "(\<exists>e. verify_signature recover w r = (Inl e, w)) \<or>
   (\<exists>resp. verify_signature recover w r = (Inr resp, w) \<and> status resp \<noteq> 200) \<or>
   (\<exists>kvs A sig n R. http_method r = ''POST'' \<and> json_loads (body r) = Inr (JObj kvs) \<and>
      map_of kvs ''address'' = Some (JStr A) \<and> A \<noteq> [] \<and>
      map_of kvs ''signature'' = Some sig \<and> truthy sig \<and> users w (lower A) = Some n \<and>
      recover (encode_defunct (message_text n)) sig = Inr R \<and> lower R = lower A)"
proof (cases "http_method r = ''POST''")
  case False
  then show ?thesis by (simp add: verify_signature_def JsonResponse_def)
next
  case post: True
  show ?thesis
  proof (cases "json_loads (body r)")
    case (Inl e)
    with post show ?thesis by (simp add: verify_signature_def)
  next
    case (Inr data)
    show ?thesis
    proof (cases "dict_get data ''address''")
      case (Inl e)
      with post Inr show ?thesis by (simp add: verify_signature_def)
    next
      case getr: (Inr v)
      then obtain kvs where data: "data = JObj kvs"
        and v: "v = (case map_of kvs ''address'' of None \<Rightarrow> JNull | Some x \<Rightarrow> x)"
        by (auto simp: dict_get_Inr_iff)
      show ?thesis
      proof (cases "truthy v")
        case False
        with post Inr getr data show ?thesis
          by (simp add: verify_signature_def lower_method_py_or JsonResponse_def)
      next
        case True
        show ?thesis
        proof (cases "lower_method v")
          case (Inl e)
          with post Inr getr True show ?thesis
            by (simp add: verify_signature_def lower_method_py_or)
        next
          case lowr: (Inr a)
          then obtain A where "v = JStr A" by (auto simp: lower_method_Inr_iff)
          with True v have A: "map_of kvs ''address'' = Some (JStr A)" "A \<noteq> []"
            by (auto split: option.splits)
          show ?thesis
          proof (cases "map_of kvs ''signature''")
            case None
            with post Inr data A show ?thesis
              by (simp add: verify_signature_def lower_method_py_or JsonResponse_def)
          next
            case (Some sig)
            show ?thesis
            proof (cases "truthy sig")
              case False
              with post Inr data A Some show ?thesis
                by (simp add: verify_signature_def lower_method_py_or JsonResponse_def)
            next
              case sig: True
              show ?thesis
              proof (cases "users w (lower A)")
                case None
                with post Inr data A Some sig show ?thesis
                  by (simp add: verify_signature_def lower_method_py_or JsonResponse_def
                      lower_Nil_iff)
              next
                case user: (Some n)
                note reach = verify_signature_reach
                  [OF post Inr [unfolded data] A Some sig user, of recover]
                show ?thesis
                proof (cases "recover (encode_defunct (message_text n)) sig")
                  case (Inl e)
                  with reach show ?thesis by (simp add: JsonResponse_def)
                next
                  case rec: (Inr R)
                  show ?thesis
                  proof (cases "lower R = lower A")
                    case False
                    with reach rec show ?thesis by (simp add: JsonResponse_def)
                  next
                    case True
                    with post Inr data A Some sig user rec show ?thesis by auto
                  qed
                qed
              qed
            qed
          qed
        qed
      qed
    qed
  qed
qed


lemma get_nonce_succeeded:
  assumes "succeeded (fst (get_nonce w r))"
  shows "\<exists>kvs A. http_method r = ''POST'' \<and> json_loads (body r) = Inr (JObj kvs) \<and>
      map_of kvs ''address'' = Some (JStr A) \<and> A \<noteq> []"
  using get_nonce_cases [of w r] assms by (auto simp: succeeded_def)

lemma get_nonce_failed:
  assumes "\<not> succeeded (fst (get_nonce w r))"
  shows "snd (get_nonce w r) = w"
  using get_nonce_cases [of w r]
proof (elim disjE exE conjE)
  fix kvs A
  assume "http_method r = ''POST''" "json_loads (body r) = Inr (JObj kvs)"
    "map_of kvs ''address'' = Some (JStr A)" "A \<noteq> []"
  from get_nonce_issue [OF this, of w] assms show ?thesis
    by (simp add: succeeded_def JsonResponse_def)
qed simp_all

lemma verify_signature_succeeded:
  assumes "succeeded (fst (verify_signature recover w r))"
  shows "\<exists>kvs A sig n R. http_method r = ''POST'' \<and> json_loads (body r) = Inr (JObj kvs) \<and>
      map_of kvs ''address'' = Some (JStr A) \<and> A \<noteq> [] \<and>
      map_of kvs ''signature'' = Some sig \<and> truthy sig \<and> users w (lower A) = Some n \<and>
      recover (encode_defunct (message_text n)) sig = Inr R \<and> lower R = lower A"
  using verify_signature_cases [of recover w r] assms by (auto simp: succeeded_def)

lemma verify_signature_granted:
  assumes "http_method r = ''POST''" "json_loads (body r) = Inr (JObj kvs)"
    "map_of kvs ''address'' = Some (JStr A)" "A \<noteq> []"
    "map_of kvs ''signature'' = Some sig" "truthy sig"
    "users w (lower A) = Some n"
    "recover (encode_defunct (message_text n)) sig = Inr R" "lower R = lower A"
  shows "verify_signature recover w r =
    (Inr (JsonResponse [(''success'', JBool True), (''address'', JStr (lower A))] 200),
     w\<lparr>users := (users w)(lower A \<mapsto> Some (fst (token_hex 16 w))),
       session := Some (lower A), drawn := drawn w + 16\<rparr>)"
  using verify_signature_reach [OF assms(1-7), of recover] assms(8,9) by simp

lemma verify_signature_failed:
  assumes "\<not> succeeded (fst (verify_signature recover w r))"
  shows "snd (verify_signature recover w r) = w"
  using verify_signature_cases [of recover w r]
proof (elim disjE exE conjE)
  fix kvs A sig n R
  assume "http_method r = ''POST''" "json_loads (body r) = Inr (JObj kvs)"
    "map_of kvs ''address'' = Some (JStr A)" "A \<noteq> []"
    "map_of kvs ''signature'' = Some sig" "truthy sig" "users w (lower A) = Some n"
    "recover (encode_defunct (message_text n)) sig = Inr R" "lower R = lower A"
  from verify_signature_granted [where recover = recover, OF this] assms show ?thesis
    by (simp add: succeeded_def JsonResponse_def)
qed simp_all

section \<open>The claims\<close>

subsection \<open>C1: a matching signature is granted and the nonce is rotated\<close>

text \<open>
  C1. For an address \<open>A\<close> whose record holds the nonce \<open>N\<close>, verifying a signature
  that recovers (up to letter case) to \<open>A\<close> over the message \<^verbatim>\<open>Login nonce: N\<close>
  answers 200 with \<^verbatim>\<open>success: true\<close>, stores a newly generated token as the nonce
  and binds the session to the identity. The new token is the hexadecimal form of the
  next 16 bytes of the generator; it differs from \<open>N\<close> exactly when those bytes differ
  from the bytes \<open>N\<close> was made of.
\<close>

theorem C1_verify_grants_and_rotates:
  assumes "http_method r = ''POST''" "json_loads (body r) = Inr (JObj kvs)"
    "map_of kvs ''address'' = Some (JStr A)" "A \<noteq> []"
    "map_of kvs ''signature'' = Some sig" "truthy sig"
    "users w (lower A) = Some (Some N)"
    "recover (encode_defunct (''Login nonce: '' @ N)) sig = Inr R" "lower R = lower A"
  shows "fst (verify_signature recover w r) =
      Inr (JsonResponse [(''success'', JBool True), (''address'', JStr (lower A))] 200)
    \<and> users (snd (verify_signature recover w r)) (lower A) = Some (Some (fst (token_hex 16 w)))
    \<and> session (snd (verify_signature recover w r)) = Some (lower A)
    \<and> (\<forall>bs. N = hexlify bs \<longrightarrow>
         (fst (token_hex 16 w) \<noteq> N \<longleftrightarrow> map (urandom w) [drawn w ..< drawn w + 16] \<noteq> bs))"
proof -
  have "recover (encode_defunct (message_text (Some N))) sig = Inr R"
    using assms(8) by (simp add: message_text_def)
  note granted = verify_signature_granted [where recover = recover, OF assms(1-7) this assms(9)]
  have "fst (token_hex 16 w) \<noteq> hexlify bs \<longleftrightarrow> map (urandom w) [drawn w ..< drawn w + 16] \<noteq> bs"
    for bs
    using hexlify_inject [of "map (urandom w) [drawn w ..< drawn w + 16]" bs]
    by (auto simp: fst_token_hex)
  with granted show ?thesis by simp
qed

text \<open>
  The round trip on a generator that counts: the challenge is made of the bytes 0 to 15,
  the rotated nonce of the bytes 16 to 31.
\<close>

theorem C1_witness:
  "fst (verify_signature
         (only_signature ''Login nonce: 000102030405060708090a0b0c0d0e0f'' (JStr ''0xsig'') ''0xAB'')
         (snd (get_nonce (fresh_world counting) (post [(''address'', JStr ''0xAb'')])))
         (post [(''address'', JStr ''0xaB''), (''signature'', JStr ''0xsig'')])) =
     Inr (JsonResponse [(''success'', JBool True), (''address'', JStr ''0xab'')] 200)
   \<and> fst (token_hex 16 (snd (get_nonce (fresh_world counting) (post [(''address'', JStr ''0xAb'')]))))
       \<noteq> ''000102030405060708090a0b0c0d0e0f''"
proof -
  let ?w1 = "snd (get_nonce (fresh_world counting) (post [(''address'', JStr ''0xAb'')]))"
  let ?r = "post [(''address'', JStr ''0xaB''), (''signature'', JStr ''0xsig'')]"
  let ?N = "''000102030405060708090a0b0c0d0e0f''"
  let ?rec = "only_signature (''Login nonce: '' @ ?N) (JStr ''0xsig'') ''0xAB''"
  let ?bs = "map counting [0 ..< 16]"
  have h1: "http_method ?r = ''POST''" by (simp add: post_def)
  have h2: "json_loads (body ?r) =
      Inr (JObj [(''address'', JStr ''0xaB''), (''signature'', JStr ''0xsig'')])"
    by (simp add: post_def)
  have h3: "map_of [(''address'', JStr ''0xaB''), (''signature'', JStr ''0xsig'')] ''address'' =
      Some (JStr ''0xaB'')" by simp
  have h4: "''0xaB'' \<noteq> []" by simp
  have h5: "map_of [(''address'', JStr ''0xaB''), (''signature'', JStr ''0xsig'')] ''signature'' =
      Some (JStr ''0xsig'')" by simp
  have h6: "truthy (JStr ''0xsig'')" by simp
  have h7: "users ?w1 (lower ''0xaB'') = Some (Some ?N)" by code_simp
  have h8: "?rec (encode_defunct (''Login nonce: '' @ ?N)) (JStr ''0xsig'') = Inr ''0xAB''"
    by (simp add: only_signature_def)
  have h9: "lower ''0xAB'' = lower ''0xaB''" by code_simp
  have l: "lower ''0xaB'' = ''0xab''" by code_simp
  have n: "?N = hexlify ?bs" by code_simp
  have d: "map (urandom ?w1) [drawn ?w1 ..< drawn ?w1 + 16] \<noteq> ?bs" by code_simp
  from C1_verify_grants_and_rotates [where recover = ?rec, OF h1 h2 h3 h4 h5 h6 h7 h8 h9] n d l
  show ?thesis by simp
qed

text \<open>
  The new nonce is not different from the old one on every run: when the generator hands
  out the same 16 bytes twice, the rotation stores the value that was there before.
\<close>

theorem C1_counterexample:
  "fst (verify_signature
         (only_signature ''Login nonce: 00000000000000000000000000000000'' (JStr ''0xsig'') ''0xAB'')
         (snd (get_nonce (fresh_world zeros) (post [(''address'', JStr ''0xAB'')])))
         (post [(''address'', JStr ''0xAB''), (''signature'', JStr ''0xsig'')])) =
     Inr (JsonResponse [(''success'', JBool True), (''address'', JStr ''0xab'')] 200)
   \<and> users (snd (get_nonce (fresh_world zeros) (post [(''address'', JStr ''0xAB'')]))) ''0xab'' =
     Some (Some ''00000000000000000000000000000000'')
   \<and> users (snd (verify_signature
         (only_signature ''Login nonce: 00000000000000000000000000000000'' (JStr ''0xsig'') ''0xAB'')
         (snd (get_nonce (fresh_world zeros) (post [(''address'', JStr ''0xAB'')])))
         (post [(''address'', JStr ''0xAB''), (''signature'', JStr ''0xsig'')]))) ''0xab'' =
     Some (Some ''00000000000000000000000000000000'')"
  by code_simp

subsection \<open>C2: a signature by another wallet is rejected and nothing changes\<close>

text \<open>
  C2. When recovery succeeds but the recovered address, lowercased, is not the
  lowercased claimed address, the view answers 401 with \<^verbatim>\<open>success: false\<close> and
  \<^verbatim>\<open>Invalid signature\<close>, and it leaves the world, the stored nonce included, exactly
  as it was.
\<close>

theorem C2_mismatch_rejected:
  assumes "http_method r = ''POST''" "json_loads (body r) = Inr (JObj kvs)"
    "map_of kvs ''address'' = Some (JStr A)" "A \<noteq> []"
    "map_of kvs ''signature'' = Some sig" "truthy sig"
    "users w (lower A) = Some n"
    "recover (encode_defunct (message_text n)) sig = Inr R" "lower R \<noteq> lower A"
  shows "verify_signature recover w r =
    (Inr (JsonResponse [(''success'', JBool False), (''error'', JStr ''Invalid signature'')] 401),
     w)"
  using verify_signature_reach [OF assms(1-7), of recover] assms(8,9) by simp

text \<open>
  A signature made for the stale nonce \<open>n0\<close> recovers, over the message for the current
  nonce \<open>n1\<close>, to some other wallet: the answer is 401 and \<open>n1\<close> stays.
\<close>

theorem C2_witness:
  "fst (verify_signature (only_signature ''Login nonce: n1'' (JStr ''0xsig'') ''0xCD'')
         ((fresh_world zeros)\<lparr>users := [''0xab'' \<mapsto> Some ''n1'']\<rparr>)
         (post [(''address'', JStr ''0xAB''), (''signature'', JStr ''0xsig'')])) =
     Inr (JsonResponse [(''success'', JBool False), (''error'', JStr ''Invalid signature'')] 401)
   \<and> users (snd (verify_signature (only_signature ''Login nonce: n1'' (JStr ''0xsig'') ''0xCD'')
         ((fresh_world zeros)\<lparr>users := [''0xab'' \<mapsto> Some ''n1'']\<rparr>)
         (post [(''address'', JStr ''0xAB''), (''signature'', JStr ''0xsig'')]))) ''0xab'' =
     Some (Some ''n1'')"
proof -
  let ?w = "(fresh_world zeros)\<lparr>users := [''0xab'' \<mapsto> Some ''n1'']\<rparr>"
  let ?kvs = "[(''address'', JStr ''0xAB''), (''signature'', JStr ''0xsig'')]"
  let ?rec = "only_signature ''Login nonce: n1'' (JStr ''0xsig'') ''0xCD''"
  have l: "lower ''0xAB'' = ''0xab''" "lower ''0xCD'' = ''0xcd''" by code_simp+
  have h1: "http_method (post ?kvs) = ''POST''" by (simp add: post_def)
  have h2: "json_loads (body (post ?kvs)) = Inr (JObj ?kvs)" by (simp add: post_def)
  have h3: "map_of ?kvs ''address'' = Some (JStr ''0xAB'')" by simp
  have h4: "''0xAB'' \<noteq> []" by simp
  have h5: "map_of ?kvs ''signature'' = Some (JStr ''0xsig'')" by simp
  have h6: "truthy (JStr ''0xsig'')" by simp
  have h7: "users ?w (lower ''0xAB'') = Some (Some ''n1'')" by (simp add: l)
  have h8: "?rec (encode_defunct (message_text (Some ''n1''))) (JStr ''0xsig'') = Inr ''0xCD''"
    by (simp add: only_signature_def message_text_def)
  have h9: "lower ''0xCD'' \<noteq> lower ''0xAB''" by (simp add: l)
  from C2_mismatch_rejected [where recover = ?rec, OF h1 h2 h3 h4 h5 h6 h7 h8 h9]
  show ?thesis by simp
qed

subsection \<open>C5: a signature that cannot be recovered\<close>

text \<open>
  C5. When the recovery primitive raises, the view answers 400 with \<^verbatim>\<open>success: false\<close>
  and an error text that is \<^verbatim>\<open>Recover failed: \<close> followed by the text of the
  exception. That answer is not the 401 of a mismatch, and the world, the stored nonce
  included, is left exactly as it was.
\<close>

theorem C5_recovery_failure:
  assumes "http_method r = ''POST''" "json_loads (body r) = Inr (JObj kvs)"
    "map_of kvs ''address'' = Some (JStr A)" "A \<noteq> []"
    "map_of kvs ''signature'' = Some sig" "truthy sig"
    "users w (lower A) = Some n"
    "recover (encode_defunct (message_text n)) sig = Inl reason"
  shows "verify_signature recover w r =
      (Inr (JsonResponse [(''success'', JBool False),
              (''error'', JStr (''Recover failed: '' @ reason))] 400), w)
    \<and> fst (verify_signature recover w r) \<noteq>
      Inr (JsonResponse [(''success'', JBool False), (''error'', JStr ''Invalid signature'')] 401)"
  using verify_signature_reach [OF assms(1-7), of recover] assms(8)
  by (simp add: JsonResponse_def)

theorem C5_witness:
  "fst (verify_signature (only_signature ''Login nonce: n1'' (JStr ''0xsig'') ''0xAB'')
         ((fresh_world zeros)\<lparr>users := [''0xab'' \<mapsto> Some ''n1'']\<rparr>)
         (post [(''address'', JStr ''0xAB''), (''signature'', JStr ''zz'')])) =
     Inr (JsonResponse [(''success'', JBool False),
            (''error'', JStr ''Recover failed: invalid signature'')] 400)
   \<and> users (snd (verify_signature (only_signature ''Login nonce: n1'' (JStr ''0xsig'') ''0xAB'')
         ((fresh_world zeros)\<lparr>users := [''0xab'' \<mapsto> Some ''n1'']\<rparr>)
         (post [(''address'', JStr ''0xAB''), (''signature'', JStr ''zz'')]))) ''0xab'' =
     Some (Some ''n1'')"
proof -
  let ?w = "(fresh_world zeros)\<lparr>users := [''0xab'' \<mapsto> Some ''n1'']\<rparr>"
  let ?kvs = "[(''address'', JStr ''0xAB''), (''signature'', JStr ''zz'')]"
  let ?rec = "only_signature ''Login nonce: n1'' (JStr ''0xsig'') ''0xAB''"
  have l: "lower ''0xAB'' = ''0xab''" by code_simp
  have h1: "http_method (post ?kvs) = ''POST''" by (simp add: post_def)
  have h2: "json_loads (body (post ?kvs)) = Inr (JObj ?kvs)" by (simp add: post_def)
  have h3: "map_of ?kvs ''address'' = Some (JStr ''0xAB'')" by simp
  have h4: "''0xAB'' \<noteq> []" by simp
  have h5: "map_of ?kvs ''signature'' = Some (JStr ''zz'')" by simp
  have h6: "truthy (JStr ''zz'')" by simp
  have h7: "users ?w (lower ''0xAB'') = Some (Some ''n1'')" by (simp add: l)
  have h8: "?rec (encode_defunct (message_text (Some ''n1''))) (JStr ''zz'') =
      Inl ''invalid signature''"
    by (simp add: only_signature_def)
  from C5_recovery_failure [where recover = ?rec, OF h1 h2 h3 h4 h5 h6 h7 h8]
  show ?thesis by simp
qed

subsection \<open>C4: verifying for an address that was never issued a challenge\<close>

text \<open>
  C4. For a non-empty address whose lowercase form has no identity record, and any
  signature that is present and non-empty (recoverable or not), the view answers 404
  with \<^verbatim>\<open>User not found\<close> and changes nothing.
\<close>

theorem C4_unknown_identity:
  assumes "http_method r = ''POST''" "json_loads (body r) = Inr (JObj kvs)"
    "map_of kvs ''address'' = Some (JStr A)" "A \<noteq> []"
    "map_of kvs ''signature'' = Some sig" "truthy sig"
    "users w (lower A) = None"
  shows "verify_signature recover w r =
    (Inr (JsonResponse [(''success'', JBool False), (''error'', JStr ''User not found'')] 404), w)"
  using assms
  by (simp add: verify_signature_def py_or_def lower_Nil_iff)

theorem C4_witness:
  "fst (verify_signature (only_signature ''Login nonce: n1'' (JStr ''0xsig'') ''0xAB'')
         (fresh_world zeros)
         (post [(''address'', JStr ''0xAB''), (''signature'', JStr ''0xsig'')])) =
     Inr (JsonResponse [(''success'', JBool False), (''error'', JStr ''User not found'')] 404)"
proof -
  let ?kvs = "[(''address'', JStr ''0xAB''), (''signature'', JStr ''0xsig'')]"
  let ?rec = "only_signature ''Login nonce: n1'' (JStr ''0xsig'') ''0xAB''"
  have h1: "http_method (post ?kvs) = ''POST''" by (simp add: post_def)
  have h2: "json_loads (body (post ?kvs)) = Inr (JObj ?kvs)" by (simp add: post_def)
  have h3: "map_of ?kvs ''address'' = Some (JStr ''0xAB'')" by simp
  have h4: "''0xAB'' \<noteq> []" by simp
  have h5: "map_of ?kvs ''signature'' = Some (JStr ''0xsig'')" by simp
  have h6: "truthy (JStr ''0xsig'')" by simp
  have h7: "users (fresh_world zeros) (lower ''0xAB'') = None" by (simp add: fresh_world_def)
  from C4_unknown_identity [where recover = ?rec, OF h1 h2 h3 h4 h5 h6 h7]
  show ?thesis by simp
qed

text \<open>
  With an empty signature the presence check answers first: the address is just as
  unknown, and the answer is 400, not 404.
\<close>

theorem C4_counterexample:
  "users (fresh_world zeros) (lower ''0xab'') = None
   \<and> fst (verify_signature (only_signature ''Login nonce: n1'' (JStr ''0xsig'') ''0xAB'')
         (fresh_world zeros)
         (post [(''address'', JStr ''0xab''), (''signature'', JStr '''')])) =
     Inr (JsonResponse [(''success'', JBool False),
            (''error'', JStr ''Missing address/signature'')] 400)"
  by code_simp

subsection \<open>C3: missing and empty fields\<close>

text \<open>
  C3. \<^verbatim>\<open>get_nonce\<close> answers 400 with \<^verbatim>\<open>Missing address\<close> whenever the address is
  absent, null, the empty string or any other falsy value, and changes nothing.
  \<^verbatim>\<open>verify_signature\<close> answers 400 with \<^verbatim>\<open>Missing address/signature\<close> whenever the
  address is falsy, or the address is a string and the signature is absent, null, empty
  or otherwise falsy, and changes nothing. No view trims the address.
\<close>

theorem C3_missing_fields_rejected:
  assumes "http_method r = ''POST''" "json_loads (body r) = Inr (JObj kvs)"
    "dict_get (JObj kvs) ''address'' = Inr a" "dict_get (JObj kvs) ''signature'' = Inr s"
  shows "(\<not> truthy a \<longrightarrow>
       get_nonce w r = (Inr (JsonResponse [(''error'', JStr ''Missing address'')] 400), w))
    \<and> (\<not> truthy a \<or> (\<exists>A. a = JStr A) \<and> \<not> truthy s \<longrightarrow>
       verify_signature recover w r =
         (Inr (JsonResponse [(''success'', JBool False),
                 (''error'', JStr ''Missing address/signature'')] 400), w))"
proof -
  have "get_nonce w r = (Inr (JsonResponse [(''error'', JStr ''Missing address'')] 400), w)"
    if "\<not> truthy a"
    using assms that by (simp add: get_nonce_def lower_method_py_or)
  moreover have "verify_signature recover w r =
      (Inr (JsonResponse [(''success'', JBool False),
              (''error'', JStr ''Missing address/signature'')] 400), w)"
    if "\<not> truthy a"
    using assms that by (simp add: verify_signature_def lower_method_py_or)
  moreover have "verify_signature recover w r =
      (Inr (JsonResponse [(''success'', JBool False),
              (''error'', JStr ''Missing address/signature'')] 400), w)"
    if "a = JStr A" "\<not> truthy s" for A
    using assms that by (simp add: verify_signature_def lower_method_py_or)
  ultimately show ?thesis by blast
qed

text \<open>An empty body, and a body with an address but an empty signature.\<close>

theorem C3_witness:
  "fst (get_nonce (fresh_world zeros) \<lparr>http_method = ''POST'', body = NoBody\<rparr>) =
     Inr (JsonResponse [(''error'', JStr ''Missing address'')] 400)
   \<and> fst (verify_signature (only_signature ''Login nonce: n1'' (JStr ''0xsig'') ''0xAB'')
           (fresh_world zeros) \<lparr>http_method = ''POST'', body = NoBody\<rparr>) =
     Inr (JsonResponse [(''success'', JBool False),
            (''error'', JStr ''Missing address/signature'')] 400)
   \<and> fst (verify_signature (only_signature ''Login nonce: n1'' (JStr ''0xsig'') ''0xAB'')
           (fresh_world zeros)
           (post [(''address'', JStr ''0xAB''), (''signature'', JStr '''')])) =
     Inr (JsonResponse [(''success'', JBool False),
            (''error'', JStr ''Missing address/signature'')] 400)"
proof -
  let ?rec = "only_signature ''Login nonce: n1'' (JStr ''0xsig'') ''0xAB''"
  let ?empty = "\<lparr>http_method = ''POST'', body = NoBody\<rparr>"
  let ?kvs = "[(''address'', JStr ''0xAB''), (''signature'', JStr '''')]"
  have a1: "http_method ?empty = ''POST''" by simp
  have a2: "json_loads (body ?empty) = Inr (JObj [])" by simp
  have a3: "dict_get (JObj []) ''address'' = Inr JNull" by simp
  have a4: "dict_get (JObj []) ''signature'' = Inr JNull" by simp
  have b1: "http_method (post ?kvs) = ''POST''" by (simp add: post_def)
  have b2: "json_loads (body (post ?kvs)) = Inr (JObj ?kvs)" by (simp add: post_def)
  have b3: "dict_get (JObj ?kvs) ''address'' = Inr (JStr ''0xAB'')" by simp
  have b4: "dict_get (JObj ?kvs) ''signature'' = Inr (JStr '''')" by simp
  from C3_missing_fields_rejected [where recover = ?rec and w = "fresh_world zeros",
      OF a1 a2 a3 a4]
    C3_missing_fields_rejected [where recover = ?rec and w = "fresh_world zeros",
      OF b1 b2 b3 b4]
  show ?thesis by simp
qed

text \<open>
  A whitespace-only address is not empty for \<^verbatim>\<open>get_nonce\<close>: it gets a user of that
  name and a nonce.
\<close>

theorem C3_counterexample:
  "fst (get_nonce (fresh_world zeros) (post [(''address'', JStr ''  '')])) =
     Inr (JsonResponse [(''nonce'', JStr ''00000000000000000000000000000000'')] 200)
   \<and> users (snd (get_nonce (fresh_world zeros) (post [(''address'', JStr ''  '')]))) ''  '' =
     Some (Some ''00000000000000000000000000000000'')"
  by code_simp

subsection \<open>C6: the letter case of the address does not matter\<close>

text \<open>
  C6. A request with the address \<open>A\<close> and a request with the lowercase form of \<open>A\<close>
  have the same effect in \<^verbatim>\<open>get_nonce\<close>: the same answer and the same world
  afterwards. For a POST with a non-empty \<open>A\<close>, both requests answer 200 with the fresh
  nonce, both leave that nonce in the record under the lowercase form of \<open>A\<close>, and that
  record is the only one added to the store: it is created when it was not there and
  overwritten when it was. Every record under another key, the one under a mixed-case
  \<open>A\<close> included, is left as it was.
\<close>

theorem C6_case_insensitive_issue:
  assumes "http_method r = http_method r'"
    "json_loads (body r) = Inr (JObj kvs)" "map_of kvs ''address'' = Some (JStr A)"
    "json_loads (body r') = Inr (JObj kvs')" "map_of kvs' ''address'' = Some (JStr (lower A))"
  shows "get_nonce w r = get_nonce w r'
    \<and> (\<forall>a. a \<noteq> lower A \<longrightarrow> users (snd (get_nonce w r)) a = users w a)
    \<and> (http_method r = ''POST'' \<and> A \<noteq> [] \<longrightarrow>
         fst (get_nonce w r) = Inr (JsonResponse [(''nonce'', JStr (fst (token_hex 16 w)))] 200)
       \<and> fst (get_nonce w r') = Inr (JsonResponse [(''nonce'', JStr (fst (token_hex 16 w)))] 200)
       \<and> users (snd (get_nonce w r)) (lower A) = Some (Some (fst (token_hex 16 w)))
       \<and> users (snd (get_nonce w r')) (lower A) = Some (Some (fst (token_hex 16 w)))
       \<and> dom (users (snd (get_nonce w r))) = insert (lower A) (dom (users w))
       \<and> dom (users (snd (get_nonce w r'))) = insert (lower A) (dom (users w)))"
proof -
  have same: "get_nonce w r = get_nonce w r'"
    using assms by (simp add: get_nonce_def py_or_def lower_idem lower_Nil_iff)
  have others: "users (snd (get_nonce w r)) a = users w a" if "a \<noteq> lower A" for a
  proof (cases "succeeded (fst (get_nonce w r))")
    case False
    then show ?thesis by (simp add: get_nonce_failed)
  next
    case True
    from get_nonce_succeeded [OF this] assms(2,3)
    have "http_method r = ''POST''" "A \<noteq> []" by auto
    from get_nonce_issue [OF this(1) assms(2,3) this(2), of w] that
    show ?thesis by simp
  qed
  have written: "fst (get_nonce w r) =
        Inr (JsonResponse [(''nonce'', JStr (fst (token_hex 16 w)))] 200)
      \<and> users (snd (get_nonce w r)) (lower A) = Some (Some (fst (token_hex 16 w)))
      \<and> dom (users (snd (get_nonce w r))) = insert (lower A) (dom (users w))"
    if "http_method r = ''POST''" "A \<noteq> []"
    using get_nonce_issue [OF that(1) assms(2,3) that(2), of w] by simp
  from same others written show ?thesis by simp
qed

text \<open>
  On a generator that counts, \<^verbatim>\<open>0xABcd\<close> and \<^verbatim>\<open>0xabcd\<close> both write the nonce
  into the record \<^verbatim>\<open>0xabcd\<close>, and nothing appears under \<^verbatim>\<open>0xABcd\<close>.
\<close>

theorem C6_witness:
  "get_nonce (fresh_world counting) (post [(''address'', JStr ''0xABcd'')]) =
   get_nonce (fresh_world counting) (post [(''address'', JStr ''0xabcd'')])
   \<and> users (snd (get_nonce (fresh_world counting) (post [(''address'', JStr ''0xABcd'')])))
        ''0xABcd'' = None
   \<and> users (snd (get_nonce (fresh_world counting) (post [(''address'', JStr ''0xABcd'')])))
        ''0xabcd'' = Some (Some ''000102030405060708090a0b0c0d0e0f'')
   \<and> users (snd (get_nonce (fresh_world counting) (post [(''address'', JStr ''0xabcd'')])))
        ''0xabcd'' = Some (Some ''000102030405060708090a0b0c0d0e0f'')
   \<and> dom (users (snd (get_nonce (fresh_world counting) (post [(''address'', JStr ''0xABcd'')]))))
        = {''0xabcd''}"
proof -
  let ?w = "fresh_world counting"
  let ?r = "post [(''address'', JStr ''0xABcd'')]"
  let ?r' = "post [(''address'', JStr ''0xabcd'')]"
  let ?N = "''000102030405060708090a0b0c0d0e0f''"
  have l: "lower ''0xABcd'' = ''0xabcd''" by code_simp
  have t: "fst (token_hex 16 ?w) = ?N" by code_simp
  have h1: "http_method ?r = http_method ?r'" by (simp add: post_def)
  have h2: "json_loads (body ?r) = Inr (JObj [(''address'', JStr ''0xABcd'')])"
    by (simp add: post_def)
  have h3: "map_of [(''address'', JStr ''0xABcd'')] ''address'' = Some (JStr ''0xABcd'')"
    by simp
  have h4: "json_loads (body ?r') = Inr (JObj [(''address'', JStr ''0xabcd'')])"
    by (simp add: post_def)
  have h5: "map_of [(''address'', JStr ''0xabcd'')] ''address'' = Some (JStr (lower ''0xABcd''))"
    by (simp add: l)
  have n: "''0xABcd'' \<noteq> lower ''0xABcd''" by (simp add: l)
  have p: "http_method ?r = ''POST'' \<and> ''0xABcd'' \<noteq> []" by (simp add: post_def)
  have d: "dom (users ?w) = {}" by (simp add: fresh_world_def)
  note c6 = C6_case_insensitive_issue [OF h1 h2 h3 h4 h5, of ?w]
  from c6 have "get_nonce ?w ?r = get_nonce ?w ?r'"
    by (rule conjunct1)
  moreover from c6 n
  have "users (snd (get_nonce ?w ?r)) ''0xABcd'' = users ?w ''0xABcd''"
    by blast
  moreover have "users ?w ''0xABcd'' = None"
    by (simp add: fresh_world_def)
  moreover from c6 p
  have "users (snd (get_nonce ?w ?r)) (lower ''0xABcd'') = Some (Some (fst (token_hex 16 ?w)))"
    "users (snd (get_nonce ?w ?r')) (lower ''0xABcd'') = Some (Some (fst (token_hex 16 ?w)))"
    "dom (users (snd (get_nonce ?w ?r))) = insert (lower ''0xABcd'') (dom (users ?w))"
    by blast+
  ultimately show ?thesis by (simp add: l t d)
qed

subsection \<open>C7: issuing twice\<close>

text \<open>
  C7. Two calls of \<^verbatim>\<open>get_nonce\<close> for the same address (in any letter case) leave one
  identity record for it: the first call adds at most the record under the lowercase
  address, the second adds none. After each call the record holds the nonce that call
  returned, so the second nonce has replaced the first, and every other record is as
  it was.
\<close>

theorem C7_issue_twice:
  assumes "http_method r = ''POST''" "json_loads (body r) = Inr (JObj kvs)"
    "map_of kvs ''address'' = Some (JStr A)" "A \<noteq> []"
    "http_method r' = ''POST''" "json_loads (body r') = Inr (JObj kvs')"
    "map_of kvs' ''address'' = Some (JStr A')" "lower A' = lower A"
    "w1 = snd (get_nonce w r)" "w2 = snd (get_nonce w1 r')"
  shows "dom (users w1) = insert (lower A) (dom (users w))
    \<and> dom (users w2) = dom (users w1)
    \<and> fst (get_nonce w r) = Inr (JsonResponse [(''nonce'', JStr (fst (token_hex 16 w)))] 200)
    \<and> users w1 (lower A) = Some (Some (fst (token_hex 16 w)))
    \<and> fst (get_nonce w1 r') = Inr (JsonResponse [(''nonce'', JStr (fst (token_hex 16 w1)))] 200)
    \<and> users w2 (lower A) = Some (Some (fst (token_hex 16 w1)))
    \<and> (\<forall>a. a \<noteq> lower A \<longrightarrow> users w2 a = users w a)"
proof -
  from assms(4,8) have A': "A' \<noteq> []"
    using lower_Nil_iff [of A] lower_Nil_iff [of A'] by simp
  note first = get_nonce_issue [OF assms(1-4), of w]
  note second = get_nonce_issue [OF assms(5-7) A', of w1]
  from first assms(9)
  have w1: "w1 = w\<lparr>users := (users w)(lower A \<mapsto> Some (fst (token_hex 16 w))),
      drawn := drawn w + 16\<rparr>" by simp
  from second assms(8,10)
  have w2: "w2 = w1\<lparr>users := (users w1)(lower A \<mapsto> Some (fst (token_hex 16 w1))),
      drawn := drawn w1 + 16\<rparr>" by simp
  have "dom (users w1) = insert (lower A) (dom (users w))" by (simp add: w1)
  moreover have "dom (users w2) = dom (users w1)" by (auto simp: w2 w1)
  moreover have "users w1 (lower A) = Some (Some (fst (token_hex 16 w)))" by (simp add: w1)
  moreover have "users w2 (lower A) = Some (Some (fst (token_hex 16 w1)))" by (simp add: w2)
  moreover have "\<forall>a. a \<noteq> lower A \<longrightarrow> users w2 a = users w a" by (simp add: w2 w1)
  ultimately show ?thesis using first second by simp
qed

text \<open>
  On a generator that counts, \<^verbatim>\<open>0xAB\<close> and then \<^verbatim>\<open>0xab\<close>: one record, holding
  the second nonce.
\<close>

theorem C7_witness:
  "dom (users (snd (get_nonce (snd (get_nonce (fresh_world counting)
        (post [(''address'', JStr ''0xAB'')]))) (post [(''address'', JStr ''0xab'')])))) =
     {''0xab''}
   \<and> users (snd (get_nonce (fresh_world counting) (post [(''address'', JStr ''0xAB'')])))
        ''0xab'' = Some (Some ''000102030405060708090a0b0c0d0e0f'')
   \<and> users (snd (get_nonce (snd (get_nonce (fresh_world counting)
        (post [(''address'', JStr ''0xAB'')]))) (post [(''address'', JStr ''0xab'')])))
        ''0xab'' = Some (Some ''101112131415161718191a1b1c1d1e1f'')"
proof -
  let ?r = "post [(''address'', JStr ''0xAB'')]"
  let ?r' = "post [(''address'', JStr ''0xab'')]"
  let ?w = "fresh_world counting"
  let ?w1 = "snd (get_nonce ?w ?r)"
  let ?w2 = "snd (get_nonce ?w1 ?r')"
  have l: "lower ''0xAB'' = ''0xab''" "lower ''0xab'' = ''0xab''" by code_simp+
  have h1: "http_method ?r = ''POST''" by (simp add: post_def)
  have h2: "json_loads (body ?r) = Inr (JObj [(''address'', JStr ''0xAB'')])"
    by (simp add: post_def)
  have h3: "map_of [(''address'', JStr ''0xAB'')] ''address'' = Some (JStr ''0xAB'')" by simp
  have h4: "''0xAB'' \<noteq> []" by simp
  have h5: "http_method ?r' = ''POST''" by (simp add: post_def)
  have h6: "json_loads (body ?r') = Inr (JObj [(''address'', JStr ''0xab'')])"
    by (simp add: post_def)
  have h7: "map_of [(''address'', JStr ''0xab'')] ''address'' = Some (JStr ''0xab'')" by simp
  have h8: "lower ''0xab'' = lower ''0xAB''" by (simp add: l)
  have t1: "fst (token_hex 16 ?w) = ''000102030405060708090a0b0c0d0e0f''" by code_simp
  have t2: "fst (token_hex 16 ?w1) = ''101112131415161718191a1b1c1d1e1f''" by code_simp
  have d: "dom (users ?w) = {}" by (simp add: fresh_world_def)
  from C7_issue_twice [OF h1 h2 h3 h4 h5 h6 h7 h8 refl refl, of ?w]
  show ?thesis by (simp add: l t1 t2 d)
qed

subsection \<open>C8: what a request can and cannot do\<close>

text \<open>
  C8. A request that is not a POST, or whose body is empty or decodes to a JSON object
  whose address is absent, falsy or a string, is always answered with a response, by
  both views and whatever the signature and the signature library do. And for every
  request whatsoever, a view that does not answer 200 (an error response, or an
  exception that leaves the view) leaves the world, every stored nonce included,
  exactly as it was.
\<close>

theorem C8_errors_are_responses_and_harmless:
  "(http_method r \<noteq> ''POST'' \<or>
      (\<exists>kvs a. json_loads (body r) = Inr (JObj kvs) \<and> dict_get (JObj kvs) ''address'' = Inr a
         \<and> (\<not> truthy a \<or> (\<exists>A. a = JStr A)))
    \<longrightarrow> (\<exists>resp. fst (get_nonce w r) = Inr resp)
       \<and> (\<exists>resp. fst (verify_signature recover w r) = Inr resp))
   \<and> (\<not> succeeded (fst (get_nonce w r)) \<longrightarrow> snd (get_nonce w r) = w)
   \<and> (\<not> succeeded (fst (verify_signature recover w r)) \<longrightarrow>
        snd (verify_signature recover w r) = w)"
proof -
  have not_post: "(\<exists>resp. fst (get_nonce w r) = Inr resp)
      \<and> (\<exists>resp. fst (verify_signature recover w r) = Inr resp)"
    if "http_method r \<noteq> ''POST''"
    using that by (simp add: get_nonce_def verify_signature_def)
  have falsy: "(\<exists>resp. fst (get_nonce w r) = Inr resp)
      \<and> (\<exists>resp. fst (verify_signature recover w r) = Inr resp)"
    if "http_method r = ''POST''" "json_loads (body r) = Inr (JObj kvs)"
      "dict_get (JObj kvs) ''address'' = Inr a" "\<not> truthy a" for kvs a
    using that by (simp add: get_nonce_def verify_signature_def lower_method_py_or)
  have str: "(\<exists>resp. fst (get_nonce w r) = Inr resp)
      \<and> (\<exists>resp. fst (verify_signature recover w r) = Inr resp)"
    if "http_method r = ''POST''" "json_loads (body r) = Inr (JObj kvs)"
      "dict_get (JObj kvs) ''address'' = Inr (JStr A)" for kvs A
    using that
    by (simp add: get_nonce_def verify_signature_def lower_method_py_or Let_def
        split: option.split sum.split)
  from not_post falsy str
  have "(\<exists>resp. fst (get_nonce w r) = Inr resp)
      \<and> (\<exists>resp. fst (verify_signature recover w r) = Inr resp)"
    if "http_method r \<noteq> ''POST'' \<or>
      (\<exists>kvs a. json_loads (body r) = Inr (JObj kvs) \<and> dict_get (JObj kvs) ''address'' = Inr a
         \<and> (\<not> truthy a \<or> (\<exists>A. a = JStr A)))"
    using that by (cases "http_method r = ''POST''") blast+
  then show ?thesis
    using get_nonce_failed [of w r] verify_signature_failed [of recover w r] by blast
qed

text \<open>
  An empty body gets the 400 of both views, and the failed verification of a signature
  by another wallet leaves the nonce \<^verbatim>\<open>n1\<close> in place.
\<close>

theorem C8_witness:
  "(\<exists>resp. fst (get_nonce (fresh_world zeros) \<lparr>http_method = ''POST'', body = NoBody\<rparr>) =
      Inr resp)
   \<and> users (snd (verify_signature (only_signature ''Login nonce: n1'' (JStr ''0xsig'') ''0xCD'')
         ((fresh_world zeros)\<lparr>users := [''0xab'' \<mapsto> Some ''n1'']\<rparr>)
         (post [(''address'', JStr ''0xAB''), (''signature'', JStr ''0xsig'')]))) ''0xab'' =
     Some (Some ''n1'')"
proof -
  let ?empty = "\<lparr>http_method = ''POST'', body = NoBody\<rparr>"
  let ?rec = "only_signature ''Login nonce: n1'' (JStr ''0xsig'') ''0xCD''"
  let ?w = "(fresh_world zeros)\<lparr>users := [''0xab'' \<mapsto> Some ''n1'']\<rparr>"
  let ?r = "post [(''address'', JStr ''0xAB''), (''signature'', JStr ''0xsig'')]"
  have a: "json_loads (body ?empty) = Inr (JObj []) \<and> dict_get (JObj []) ''address'' = Inr JNull
      \<and> (\<not> truthy JNull \<or> (\<exists>A. JNull = JStr A))" by simp
  then have a': "\<exists>kvs a. json_loads (body ?empty) = Inr (JObj kvs)
      \<and> dict_get (JObj kvs) ''address'' = Inr a \<and> (\<not> truthy a \<or> (\<exists>A. a = JStr A))"
    by blast
  have f: "\<not> succeeded (fst (verify_signature ?rec ?w ?r))" by code_simp
  from C8_errors_are_responses_and_harmless [of ?empty "fresh_world zeros" ?rec] a'
  have "\<exists>resp. fst (get_nonce (fresh_world zeros) ?empty) = Inr resp" by blast
  moreover from C8_errors_are_responses_and_harmless [of ?r ?w ?rec] f
  have "snd (verify_signature ?rec ?w ?r) = ?w" by blast
  then have "users (snd (verify_signature ?rec ?w ?r)) ''0xab'' = users ?w ''0xab''" by simp
  then have "users (snd (verify_signature ?rec ?w ?r)) ''0xab'' = Some (Some ''n1'')" by simp
  ultimately show ?thesis by blast
qed

text \<open>
  A body that is not JSON makes \<^verbatim>\<open>json.loads\<close> raise, and no handler in the view
  catches it. So does a body that is JSON but no object, or whose address is a number.
\<close>

theorem C8_counterexample:
  "fst (get_nonce (fresh_world zeros) \<lparr>http_method = ''POST'', body = Malformed\<rparr>) =
     Inl ValueError
   \<and> fst (verify_signature (only_signature ''Login nonce: n1'' (JStr ''0xsig'') ''0xAB'')
          (fresh_world zeros) \<lparr>http_method = ''POST'', body = Malformed\<rparr>) = Inl ValueError
   \<and> fst (get_nonce (fresh_world zeros)
          \<lparr>http_method = ''POST'', body = Decoded (JArr [])\<rparr>) = Inl AttributeError
   \<and> fst (get_nonce (fresh_world zeros) (post [(''address'', JInt 5)])) = Inl AttributeError"
  by code_simp

subsection \<open>C9: the shape of a nonce\<close>

text \<open>
  C9. Whenever \<^verbatim>\<open>get_nonce\<close> answers 200, the nonce it returns is the one it stored
  under the lowercase address, and it is 32 characters long, each of them one of
  \<^verbatim>\<open>0123456789abcdef\<close>. Whenever \<^verbatim>\<open>verify_signature\<close> answers 200, the nonce it
  stored under the lowercase address has the same shape.
\<close>

theorem C9_nonce_is_32_hex_characters:
  "(succeeded (fst (get_nonce w r)) \<longrightarrow>
      (\<exists>kvs A n. json_loads (body r) = Inr (JObj kvs) \<and> map_of kvs ''address'' = Some (JStr A)
         \<and> fst (get_nonce w r) = Inr (JsonResponse [(''nonce'', JStr n)] 200)
         \<and> users (snd (get_nonce w r)) (lower A) = Some (Some n)
         \<and> length n = 32 \<and> set n \<subseteq> set ''0123456789abcdef''))
   \<and> (succeeded (fst (verify_signature recover w r)) \<longrightarrow>
      (\<exists>kvs A n. json_loads (body r) = Inr (JObj kvs) \<and> map_of kvs ''address'' = Some (JStr A)
         \<and> users (snd (verify_signature recover w r)) (lower A) = Some (Some n)
         \<and> length n = 32 \<and> set n \<subseteq> set ''0123456789abcdef''))"
proof -
  let ?n = "fst (token_hex 16 w)"
  have shape: "length ?n = 32 \<and> set ?n \<subseteq> set ''0123456789abcdef''"
    using length_token_hex [of 16 w] set_token_hex [of 16 w] by (simp add: hexdigits_def)
  have issue: "\<exists>kvs A n. json_loads (body r) = Inr (JObj kvs)
      \<and> map_of kvs ''address'' = Some (JStr A)
      \<and> fst (get_nonce w r) = Inr (JsonResponse [(''nonce'', JStr n)] 200)
      \<and> users (snd (get_nonce w r)) (lower A) = Some (Some n)
      \<and> length n = 32 \<and> set n \<subseteq> set ''0123456789abcdef''"
    if "succeeded (fst (get_nonce w r))"
  proof -
    from get_nonce_succeeded [OF that] obtain kvs A where
      h: "http_method r = ''POST''" "json_loads (body r) = Inr (JObj kvs)"
         "map_of kvs ''address'' = Some (JStr A)" "A \<noteq> []" by blast
    from get_nonce_issue [OF h, of w]
    have "fst (get_nonce w r) = Inr (JsonResponse [(''nonce'', JStr ?n)] 200)"
      "users (snd (get_nonce w r)) (lower A) = Some (Some ?n)" by simp_all
    with h(2,3) shape show ?thesis by blast
  qed
  have rotate: "\<exists>kvs A n. json_loads (body r) = Inr (JObj kvs)
      \<and> map_of kvs ''address'' = Some (JStr A)
      \<and> users (snd (verify_signature recover w r)) (lower A) = Some (Some n)
      \<and> length n = 32 \<and> set n \<subseteq> set ''0123456789abcdef''"
    if "succeeded (fst (verify_signature recover w r))"
  proof -
    from verify_signature_succeeded [OF that] obtain kvs A sig n R where
      h: "http_method r = ''POST''" "json_loads (body r) = Inr (JObj kvs)"
         "map_of kvs ''address'' = Some (JStr A)" "A \<noteq> []"
         "map_of kvs ''signature'' = Some sig" "truthy sig" "users w (lower A) = Some n"
         "recover (encode_defunct (message_text n)) sig = Inr R" "lower R = lower A" by blast
    from verify_signature_granted [where recover = recover, OF h]
    have "users (snd (verify_signature recover w r)) (lower A) = Some (Some ?n)" by simp
    with h(2,3) shape show ?thesis by blast
  qed
  from issue rotate show ?thesis by blast
qed

text \<open>The first challenge on a generator that counts.\<close>

theorem C9_witness:
  "fst (get_nonce (fresh_world counting) (post [(''address'', JStr ''0xAB'')])) =
     Inr (JsonResponse [(''nonce'', JStr ''000102030405060708090a0b0c0d0e0f'')] 200)
   \<and> length ''000102030405060708090a0b0c0d0e0f'' = 32"
proof -
  let ?w = "fresh_world counting"
  let ?r = "post [(''address'', JStr ''0xAB'')]"
  have v: "fst (get_nonce ?w ?r) =
      Inr (JsonResponse [(''nonce'', JStr ''000102030405060708090a0b0c0d0e0f'')] 200)"
    by code_simp
  have s: "succeeded (fst (get_nonce ?w ?r))" by code_simp
  from C9_nonce_is_32_hex_characters [of ?w ?r] s
  obtain n where "fst (get_nonce ?w ?r) = Inr (JsonResponse [(''nonce'', JStr n)] 200)"
    "length n = 32" by blast
  with v show ?thesis by (simp add: JsonResponse_def)
qed

subsection \<open>C10: the address in the answer\<close>

text \<open>
  C10. Whenever \<^verbatim>\<open>verify_signature\<close> answers 200, the request carried a string
  address \<open>A\<close>, and the answer is \<^verbatim>\<open>success: true\<close> together with the lowercase form
  of \<open>A\<close>, whatever the letter case of \<open>A\<close> was.
\<close>

theorem C10_address_echoed_in_lowercase:
  assumes "succeeded (fst (verify_signature recover w r))"
  shows "\<exists>kvs A. json_loads (body r) = Inr (JObj kvs) \<and> map_of kvs ''address'' = Some (JStr A)
    \<and> fst (verify_signature recover w r) =
        Inr (JsonResponse [(''success'', JBool True), (''address'', JStr (lower A))] 200)"
proof -
  from verify_signature_succeeded [OF assms] obtain kvs A sig n R where
    h: "http_method r = ''POST''" "json_loads (body r) = Inr (JObj kvs)"
       "map_of kvs ''address'' = Some (JStr A)" "A \<noteq> []"
       "map_of kvs ''signature'' = Some sig" "truthy sig" "users w (lower A) = Some n"
       "recover (encode_defunct (message_text n)) sig = Inr R" "lower R = lower A" by blast
  from verify_signature_granted [where recover = recover, OF h]
  have "fst (verify_signature recover w r) =
      Inr (JsonResponse [(''success'', JBool True), (''address'', JStr (lower A))] 200)"
    by simp
  with h(2,3) show ?thesis by blast
qed

text \<open>The caller sends \<^verbatim>\<open>0xAbCd\<close> and reads \<^verbatim>\<open>0xabcd\<close> in the answer.\<close>

theorem C10_witness:
  "fst (verify_signature (only_signature ''Login nonce: n1'' (JStr ''0xsig'') ''0xABCD'')
         ((fresh_world zeros)\<lparr>users := [''0xabcd'' \<mapsto> Some ''n1'']\<rparr>)
         (post [(''address'', JStr ''0xAbCd''), (''signature'', JStr ''0xsig'')])) =
     Inr (JsonResponse [(''success'', JBool True), (''address'', JStr ''0xabcd'')] 200)"
proof -
  let ?rec = "only_signature ''Login nonce: n1'' (JStr ''0xsig'') ''0xABCD''"
  let ?w = "(fresh_world zeros)\<lparr>users := [''0xabcd'' \<mapsto> Some ''n1'']\<rparr>"
  let ?kvs = "[(''address'', JStr ''0xAbCd''), (''signature'', JStr ''0xsig'')]"
  have l: "lower ''0xAbCd'' = ''0xabcd''" by code_simp
  have s: "succeeded (fst (verify_signature ?rec ?w (post ?kvs)))" by code_simp
  from C10_address_echoed_in_lowercase [OF s] obtain kvs A where
    "json_loads (body (post ?kvs)) = Inr (JObj kvs)" "map_of kvs ''address'' = Some (JStr A)"
    "fst (verify_signature ?rec ?w (post ?kvs)) =
       Inr (JsonResponse [(''success'', JBool True), (''address'', JStr (lower A))] 200)"
    by blast
  moreover from this(1,2) have "A = ''0xAbCd''" by (auto simp: post_def)
  ultimately show ?thesis by (simp add: l)
qed

end
